theory Spec2Isabelle
  imports Main "HOL-Library.Word"
begin

unbundle bit_operations_syntax

section \<open>Data model\<close>

text \<open>
  The program (\<^verbatim>\<open>src/bintotxt/bintotxt.go\<close>) reads a binary dump of a weighted graph and
  writes its edge list as text. Go's \<^verbatim>\<open>int16\<close> is a 16-bit word read in two's complement
  (\<open>sint\<close>, and the signed orders \<open><s\<close> and \<open>\<le>s\<close>); a byte of the input file is an 8-bit word.
\<close>

type_synonym byte = "8 word"
type_synonym int16 = "16 word"

text \<open>\<^verbatim>\<open>type Edge struct { from, to, weight int16 }\<close>\<close>

record Edge =
  "from" :: int16
  "to" :: int16
  weight :: int16

section \<open>The Go library calls that \<^verbatim>\<open>readGraph\<close> makes\<close>

text \<open>
  \<^verbatim>\<open>binary.LittleEndian.Uint16(b)\<close> is \<^verbatim>\<open>uint16(b[0]) | uint16(b[1])<<8\<close>; the conversion to
  \<^verbatim>\<open>int16\<close> keeps the sixteen bits.
\<close>

definition le16 :: "byte \<Rightarrow> byte \<Rightarrow> int16" where
  "le16 b0 b1 = ucast b0 OR push_bit 8 (ucast b1)"

text \<open>
  The two errors that \<^verbatim>\<open>io.ReadFull\<close> gives at the end of a file: \<^verbatim>\<open>io.EOF\<close> when no byte
  was left, \<^verbatim>\<open>io.ErrUnexpectedEOF\<close> when some bytes were read, but fewer than asked for.
\<close>

datatype read_error = EOF | ErrUnexpectedEOF

text \<open>
  \<^verbatim>\<open>binary.Read(file, binary.LittleEndian, &x)\<close> for an \<^verbatim>\<open>int16\<close> destination asks
  \<^verbatim>\<open>io.ReadFull\<close> for two bytes. An open file is modelled by the bytes not read yet; a
  successful read returns the value and the rest of the file. Reads of an opened file fail
  only by reaching its end.
\<close>

fun binary_Read :: "byte list \<Rightarrow> read_error + (int16 \<times> byte list)" where
  "binary_Read [] = Inl EOF"
| "binary_Read [b0] = Inl ErrUnexpectedEOF"
| "binary_Read (b0 # b1 # file) = Inr (le16 b0 b1, file)"

section \<open>\<^verbatim>\<open>readGraph\<close>\<close>

text \<open>
  One constructor for each \<^verbatim>\<open>fmt.Errorf\<close> of \<^verbatim>\<open>readGraph\<close>, in the order of the source, with
  the values that the message prints: the file name, the wrapped read error, or the two
  vertex indices.
\<close>

datatype error =
    OpenError string
  | NumVerticesError read_error
  | FromError read_error
  | ToError read_error
  | WeightError read_error
  | InvalidIndices int16 int16

text \<open>
  The \<^verbatim>\<open>for\<close> loop of \<^verbatim>\<open>readGraph\<close> (lines 38 to 66): the state is the open file and the
  slice \<^verbatim>\<open>edges\<close>. Only \<^verbatim>\<open>io.EOF\<close> on the read of \<^verbatim>\<open>from\<close> leaves the loop normally.
  The loop's variables \<^verbatim>\<open>from\<close>, \<^verbatim>\<open>to\<close> and \<^verbatim>\<open>weight\<close> carry a prime, since the plain
  names are the fields of \<open>Edge\<close>.
\<close>

function readEdges :: "int16 \<Rightarrow> byte list \<Rightarrow> Edge list \<Rightarrow> error + Edge list" where
  "readEdges numVertices file edges =
     (case binary_Read file of
        Inl err \<Rightarrow> if err = EOF then Inr edges else Inl (FromError err)
      | Inr (from', file1) \<Rightarrow>
          (case binary_Read file1 of
             Inl err \<Rightarrow> Inl (ToError err)
           | Inr (to', file2) \<Rightarrow>
               (case binary_Read file2 of
                  Inl err \<Rightarrow> Inl (WeightError err)
                | Inr (weight', file3) \<Rightarrow>
                    if from' <s 0 \<or> numVertices \<le>s from' \<or> to' <s 0 \<or> numVertices \<le>s to'
                    then Inl (InvalidIndices from' to')
                    else readEdges numVertices file3
                           (edges @ [\<lparr>from = from', to = to', weight = weight'\<rparr>]))))"
  by pat_completeness auto
termination
proof (relation "measure (\<lambda>(numVertices, file, edges). length file)")
  show "wf (measure (\<lambda>(numVertices, file, edges). length file))"
    by simp
next
  fix numVertices :: int16 and file0 file1 file2 file3 :: "byte list" and edges :: "Edge list"
    and a b c :: "int16 \<times> byte list" and from' to' weight' :: int16
  assume reads: "binary_Read file0 = Inr a" "(from', file1) = a"
    "binary_Read file1 = Inr b" "(to', file2) = b"
    "binary_Read file2 = Inr c" "(weight', file3) = c"
  have shorter: "length rest < length bs" if "binary_Read bs = Inr (x, rest)"
    for bs rest :: "byte list" and x :: int16
    using that by (cases bs rule: binary_Read.cases) auto
  from reads have "length file1 < length file0" "length file2 < length file1"
    "length file3 < length file2"
    by (auto dest: shorter)
  then show "((numVertices, file3, edges @ [\<lparr>from = from', to = to', weight = weight'\<rparr>]),
              (numVertices, file0, edges))
             \<in> measure (\<lambda>(numVertices, file, edges). length file)"
    by simp
qed

declare readEdges.simps [simp del]

text \<open>
  \<^verbatim>\<open>readGraph(filename)\<close>. The file system is a map from file names to the bytes of the
  files that \<^verbatim>\<open>os.Open\<close> can open. The Go function returns \<^verbatim>\<open>(0, nil, err)\<close> on each error
  path: that is \<open>Inl err\<close> here, and \<open>Inr (numVertices, edges)\<close> is the return of line 68.
\<close>

definition readGraph :: "(string \<rightharpoonup> byte list) \<Rightarrow> string \<Rightarrow> error + (int16 \<times> Edge list)" where
  "readGraph fs filename =
     (case fs filename of
        None \<Rightarrow> Inl (OpenError filename)
      | Some file \<Rightarrow>
          (case binary_Read file of
             Inl err \<Rightarrow> Inl (NumVerticesError err)
           | Inr (numVertices, file1) \<Rightarrow>
               (case readEdges numVertices file1 [] of
                  Inl err \<Rightarrow> Inl err
                | Inr edges \<Rightarrow> Inr (numVertices, edges))))"

section \<open>The Go library calls that \<^verbatim>\<open>writeEdges\<close> makes\<close>

text \<open>
  The verb \<^verbatim>\<open>%d\<close> of package \<^verbatim>\<open>fmt\<close>. An \<^verbatim>\<open>int16\<close> argument is widened to 64 bits and
  handed to \<^verbatim>\<open>fmtInteger\<close>, which fills a buffer from its end: while \<^verbatim>\<open>u >= 10\<close> it
  stores the digit of \<^verbatim>\<open>u - (u/10)*10\<close> and goes on with \<^verbatim>\<open>u/10\<close>, then it stores
  \<^verbatim>\<open>digits[u]\<close>. The buffer is modelled by the characters stored so far.
\<close>

definition digits :: string where
  "digits = ''0123456789abcdefx''"

function fmtInteger_loop :: "nat \<Rightarrow> string \<Rightarrow> string" where
  "fmtInteger_loop u buf =
     (if 10 \<le> u then fmtInteger_loop (u div 10) (digits ! (u mod 10) # buf)
      else digits ! u # buf)"
  by pat_completeness auto
termination
  by (relation "measure (\<lambda>(u, buf). u)") simp_all

declare fmtInteger_loop.simps [simp del]

text \<open>
  \<^verbatim>\<open>negative := int64(u) < 0; if negative { u = -u }\<close>: the negation is the one of
  \<^verbatim>\<open>uint64\<close>, so it is taken modulo \<open>2 ^ 64\<close>; a minus sign goes in front of the digits.
  The argument is the signed value of the integer that is printed.
\<close>

definition fmt_d :: "int \<Rightarrow> string" where
  "fmt_d v =
     (if v < 0 then CHR ''-'' # fmtInteger_loop (nat ((- v) mod 2 ^ 64)) []
      else fmtInteger_loop (nat v) [])"

text \<open>
  An open output file (\<^verbatim>\<open>*os.File\<close>), with the environment's part in it: \<open>content\<close> is
  what the file holds, and \<open>room\<close> is the number of bytes that the device still takes
  (\<open>None\<close>: there is no limit, so no write ever fails). A write that does not fit stores the
  bytes that do and reports the failure. This is how the model lets a write fail partway
  through; the code itself only looks at the error that a write returns.
\<close>

record os_File =
  content :: string
  room :: "nat option"

definition file_Write :: "os_File \<Rightarrow> string \<Rightarrow> os_File \<times> bool" where
  "file_Write f s =
     (case room f of
        None \<Rightarrow> (f\<lparr>content := content f @ s\<rparr>, True)
      | Some n \<Rightarrow>
          if length s \<le> n
          then (f\<lparr>content := content f @ s, room := Some (n - length s)\<rparr>, True)
          else (f\<lparr>content := content f @ take n s, room := Some 0\<rparr>, False))"

text \<open>
  \<^verbatim>\<open>fmt.Fprintln(file, s)\<close> writes \<^verbatim>\<open>s\<close> and a newline in one call of \<^verbatim>\<open>Write\<close>. The flag of
  the result is \<^verbatim>\<open>err == nil\<close>.
\<close>

definition Fprintln :: "os_File \<Rightarrow> string \<Rightarrow> os_File \<times> bool" where
  "Fprintln f s = file_Write f (s @ [CHR 0x0A])"

text \<open>
  \<^verbatim>\<open>os.Create(filename)\<close>. The file system maps the names that can be created or
  truncated to their files; the file that is returned is empty.
\<close>

definition os_Create :: "(string \<rightharpoonup> os_File) \<Rightarrow> string \<Rightarrow> os_File option" where
  "os_Create fs filename = map_option (\<lambda>f. f\<lparr>content := []\<rparr>) (fs filename)"

section \<open>\<^verbatim>\<open>writeEdges\<close>\<close>

text \<open>
  The header of line 82 is a Go string, that is the bytes of its UTF-8 encoding: 35 bytes
  for the 19 characters of the Russian sentence "list of the graph's edges:".
\<close>

definition header :: string where
  "header = [CHR 0xD0, CHR 0xA1, CHR 0xD0, CHR 0xBF, CHR 0xD0, CHR 0xB8, CHR 0xD1, CHR 0x81,
     CHR 0xD0, CHR 0xBE, CHR 0xD0, CHR 0xBA, CHR 0x20, CHR 0xD1, CHR 0x80, CHR 0xD0, CHR 0xB5,
     CHR 0xD0, CHR 0xB1, CHR 0xD0, CHR 0xB5, CHR 0xD1, CHR 0x80, CHR 0x20, CHR 0xD0, CHR 0xB3,
     CHR 0xD1, CHR 0x80, CHR 0xD0, CHR 0xB0, CHR 0xD1, CHR 0x84, CHR 0xD0, CHR 0xB0, CHR 0x3A]"

text \<open>
  Line 90: \<^verbatim>\<open>fmt.Sprintf("(%d, %d, %d)", edge.from, edge.to, edge.weight)\<close>. The fields are
  printed as they are; nothing is added to them.
\<close>

definition Sprintf_edge :: "Edge \<Rightarrow> string" where
  "Sprintf_edge edge =
     ''('' @ fmt_d (sint (from edge)) @ '', '' @ fmt_d (sint (to edge)) @ '', ''
       @ fmt_d (sint (weight edge)) @ '')''"

text \<open>One constructor for each \<^verbatim>\<open>fmt.Errorf\<close> of \<^verbatim>\<open>writeEdges\<close>.\<close>

datatype write_error = CreateError string | HeaderWriteError | EdgeWriteError

text \<open>The loop of lines 88 to 95: it stops at the first write that fails.\<close>

fun writeEdges_loop :: "os_File \<Rightarrow> Edge list \<Rightarrow> os_File \<times> write_error option" where
  "writeEdges_loop f [] = (f, None)"
| "writeEdges_loop f (edge # edges) =
     (let line = Sprintf_edge edge
      in case Fprintln f line of
           (f', False) \<Rightarrow> (f', Some EdgeWriteError)
         | (f', True) \<Rightarrow> writeEdges_loop f' edges)"

text \<open>
  \<^verbatim>\<open>writeEdges(filename, edges)\<close> returns its error (\<open>None\<close> is \<^verbatim>\<open>nil\<close>) and the file system
  it leaves: once the file is created, what was written stays in it, also after a failure.
\<close>

definition writeEdges ::
  "(string \<rightharpoonup> os_File) \<Rightarrow> string \<Rightarrow> Edge list \<Rightarrow> write_error option \<times> (string \<rightharpoonup> os_File)"
  where
  "writeEdges fs filename edges =
     (case os_Create fs filename of
        None \<Rightarrow> (Some (CreateError filename), fs)
      | Some f \<Rightarrow>
          (case Fprintln f header of
             (f1, False) \<Rightarrow> (Some HeaderWriteError, fs(filename \<mapsto> f1))
           | (f1, True) \<Rightarrow>
               (case writeEdges_loop f1 edges of
                  (f2, err) \<Rightarrow> (err, fs(filename \<mapsto> f2)))))"

section \<open>The notions of the specification\<close>

text \<open>
  The error taxonomy of the specification: a format error is a truncated header or a
  truncated record, a validation error is a vertex index out of range.
\<close>

fun format_error :: "error \<Rightarrow> bool" where
  "format_error (NumVerticesError err) = True"
| "format_error (FromError err) = True"
| "format_error (ToError err) = True"
| "format_error (WeightError err) = True"
| "format_error err = False"

fun validation_error :: "error \<Rightarrow> bool" where
  "validation_error (InvalidIndices f t) = True"
| "validation_error err = False"

text \<open>
  The binary layout of the specification: a little-endian \<^verbatim>\<open>int16\<close> at offset 0, the vertex
  count, then records of three such integers from offset 2 on, six bytes each. \<open>field16\<close>
  is the integer at an offset of the input and \<open>record_at bs i\<close> the \<open>i\<close>-th record of the
  input \<open>bs\<close>, counted from 0; it is complete when \<open>record_offset i + 6 \<le> length bs\<close>.
\<close>

definition field16 :: "byte list \<Rightarrow> nat \<Rightarrow> int16" where
  "field16 bs off = le16 (bs ! off) (bs ! Suc off)"

definition record_offset :: "nat \<Rightarrow> nat" where
  "record_offset i = 2 + 6 * i"

definition record_at :: "byte list \<Rightarrow> nat \<Rightarrow> Edge" where
  "record_at bs i =
     \<lparr>from = field16 bs (record_offset i), to = field16 bs (record_offset i + 2),
      weight = field16 bs (record_offset i + 4)\<rparr>"

text \<open>The validity invariant: \<open>0 \<le> from < numVertices\<close> and \<open>0 \<le> to < numVertices\<close>.\<close>

definition in_range :: "int16 \<Rightarrow> Edge \<Rightarrow> bool" where
  "in_range n e \<longleftrightarrow>
     0 \<le> sint (from e) \<and> sint (from e) < sint n \<and> 0 \<le> sint (to e) \<and> sint (to e) < sint n"

text \<open>
  The error of an input that stops \<open>r\<close> bytes into a record, for \<open>r\<close> from 1 to 5: the read
  that finds too few bytes, and what it reports.
\<close>

definition truncation_error :: "nat \<Rightarrow> error" where
  "truncation_error r =
     (if r = 1 then FromError ErrUnexpectedEOF
      else if r = 2 then ToError EOF
      else if r = 3 then ToError ErrUnexpectedEOF
      else if r = 4 then WeightError EOF
      else WeightError ErrUnexpectedEOF)"

text \<open>
  The encoder that the round-trip property of the specification speaks of. The program has
  none; this one follows the layout above: low byte first.
\<close>

definition encode_int16 :: "int16 \<Rightarrow> byte list" where
  "encode_int16 x = [ucast x, ucast (drop_bit 8 x)]"

definition encode_Edge :: "Edge \<Rightarrow> byte list" where
  "encode_Edge e = encode_int16 (from e) @ encode_int16 (to e) @ encode_int16 (weight e)"

definition encode_graph :: "int16 \<Rightarrow> Edge list \<Rightarrow> byte list" where
  "encode_graph n es = encode_int16 n @ concat (map encode_Edge es)"

text \<open>
  The text format of the specification: a file of newline-terminated lines, and what it
  is for a string to be the base-10 signed decimal of an integer, with no padding: an
  optional minus sign, then digits with no leading zero, whose value is the magnitude.
\<close>

definition unlines :: "string list \<Rightarrow> string" where
  "unlines ls = concat (map (\<lambda>l. l @ [CHR 0x0A]) ls)"

definition decimal_value :: "string \<Rightarrow> nat" where
  "decimal_value ds = foldl (\<lambda>a c. 10 * a + (of_char c - 48)) 0 ds"

definition is_decimal :: "string \<Rightarrow> int \<Rightarrow> bool" where
  "is_decimal s v \<longleftrightarrow>
     (\<exists>ds. s = (if v < 0 then ''-'' else []) @ ds
        \<and> ds \<noteq> [] \<and> set ds \<subseteq> set ''0123456789''
        \<and> (hd ds = CHR ''0'' \<longrightarrow> ds = ''0'')
        \<and> int (decimal_value ds) = \<bar>v\<bar>)"

section \<open>Lemmas about the decoder\<close>

lemma readEdges_Nil: "readEdges n [] acc = Inr acc"
  by (simp add: readEdges.simps)

lemma readEdges_1: "readEdges n [a] acc = Inl (FromError ErrUnexpectedEOF)"
  by (simp add: readEdges.simps)

lemma readEdges_2: "readEdges n [a, b] acc = Inl (ToError EOF)"
  by (simp add: readEdges.simps)

lemma readEdges_3: "readEdges n [a, b, c] acc = Inl (ToError ErrUnexpectedEOF)"
  by (simp add: readEdges.simps)

lemma readEdges_4: "readEdges n [a, b, c, d] acc = Inl (WeightError EOF)"
  by (simp add: readEdges.simps)

lemma readEdges_5: "readEdges n [a, b, c, d, e] acc = Inl (WeightError ErrUnexpectedEOF)"
  by (simp add: readEdges.simps)

lemma readEdges_record:
  "readEdges n (a # b # c # d # e # f # rest) acc =
     (let r = \<lparr>from = le16 a b, to = le16 c d, weight = le16 e f\<rparr>
      in if in_range n r then readEdges n rest (acc @ [r])
         else Inl (InvalidIndices (from r) (to r)))"
  by (subst readEdges.simps) (auto simp add: in_range_def word_sless_alt word_sle_eq Let_def)

lemma drop_six:
  assumes "k + 6 \<le> length bs"
  shows "drop k bs = bs ! k # bs ! (k + 1) # bs ! (k + 2) # bs ! (k + 3) # bs ! (k + 4)
          # bs ! (k + 5) # drop (k + 6) bs"
proof -
  have "drop (k + i) bs = bs ! (k + i) # drop (k + Suc i) bs" if "i < 6" for i
    using that assms by (simp add: Cons_nth_drop_Suc)
  from this [of 0] this [of 1] this [of 2] this [of 3] this [of 4] this [of 5]
  show ?thesis by (simp add: numeral_eq_Suc)
qed

lemma readEdges_step:
  assumes "record_offset j + 6 \<le> length bs"
  shows "readEdges n (drop (record_offset j) bs) acc =
     (if in_range n (record_at bs j)
      then readEdges n (drop (record_offset (Suc j)) bs) (acc @ [record_at bs j])
      else Inl (InvalidIndices (from (record_at bs j)) (to (record_at bs j))))"
proof -
  have idx: "record_offset j + 1 = Suc (record_offset j)"
    "record_offset j + 3 = Suc (record_offset j + 2)"
    "record_offset j + 5 = Suc (record_offset j + 4)"
    "record_offset j + 6 = record_offset (Suc j)"
    by (simp_all add: record_offset_def)
  show ?thesis
    by (subst drop_six [OF assms])
      (simp only: idx readEdges_record record_at_def field16_def Let_def)
qed

lemma readGraph_body:
  assumes "2 \<le> length bs"
  shows "readGraph (fs(filename \<mapsto> bs)) filename =
     (case readEdges (field16 bs 0) (drop 2 bs) [] of
        Inl err \<Rightarrow> Inl err
      | Inr edges \<Rightarrow> Inr (field16 bs 0, edges))"
proof -
  from assms obtain b0 b1 rest where "bs = b0 # b1 # rest"
    by (cases bs rule: binary_Read.cases) auto
  then show ?thesis
    by (simp add: readGraph_def field16_def cong: sum.case_cong)
qed

lemma readEdges_all_in_range:
  assumes "length bs = 2 + 6 * k" and "\<forall>i<k. in_range n (record_at bs i)" and "j \<le> k"
  shows "readEdges n (drop (record_offset j) bs) acc = Inr (acc @ map (record_at bs) [j..<k])"
  using \<open>j \<le> k\<close>
proof (induction j arbitrary: acc rule: inc_induct)
  case base
  then show ?case using assms(1) by (simp add: readEdges_Nil record_offset_def)
next
  case (step j)
  from \<open>j < k\<close> assms(1) have "record_offset j + 6 \<le> length bs" by (simp add: record_offset_def)
  moreover from \<open>j < k\<close> assms(2) have "in_range n (record_at bs j)" by simp
  ultimately show ?case
    using step.IH \<open>j < k\<close> by (simp add: readEdges_step upt_conv_Cons)
qed

lemma readEdges_first_invalid:
  assumes "record_offset m + 6 \<le> length bs" and "\<not> in_range n (record_at bs m)"
    and "\<forall>i<m. in_range n (record_at bs i)" and "j \<le> m"
  shows "readEdges n (drop (record_offset j) bs) acc =
           Inl (InvalidIndices (from (record_at bs m)) (to (record_at bs m)))"
  using \<open>j \<le> m\<close>
proof (induction j arbitrary: acc rule: inc_induct)
  case base
  then show ?case using assms(1,2) by (simp add: readEdges_step)
next
  case (step j)
  from \<open>j < m\<close> assms(1) have "record_offset j + 6 \<le> length bs" by (simp add: record_offset_def)
  moreover from \<open>j < m\<close> assms(3) have "in_range n (record_at bs j)" by simp
  ultimately show ?case
    using step.IH by (simp add: readEdges_step)
qed

lemma readEdges_short:
  assumes "length xs = r" and "1 \<le> r" and "r \<le> 5"
  shows "readEdges n xs acc = Inl (truncation_error r)"
proof -
  from assms(2,3) consider "r = 1" | "r = 2" | "r = 3" | "r = 4" | "r = 5" by linarith
  then show ?thesis
  proof cases
    case 1
    with assms(1) obtain a where "xs = [a]"
      by (auto simp: length_Suc_conv)
    with 1 show ?thesis by (simp add: readEdges_1 truncation_error_def)
  next
    case 2
    with assms(1) obtain a b where "xs = [a, b]"
      by (auto simp: length_Suc_conv numeral_eq_Suc)
    with 2 show ?thesis by (simp add: readEdges_2 truncation_error_def)
  next
    case 3
    with assms(1) obtain a b c where "xs = [a, b, c]"
      by (auto simp: length_Suc_conv numeral_eq_Suc)
    with 3 show ?thesis by (simp add: readEdges_3 truncation_error_def)
  next
    case 4
    with assms(1) obtain a b c d where "xs = [a, b, c, d]"
      by (auto simp: length_Suc_conv numeral_eq_Suc)
    with 4 show ?thesis by (simp add: readEdges_4 truncation_error_def)
  next
    case 5
    with assms(1) obtain a b c d e where "xs = [a, b, c, d, e]"
      by (auto simp: length_Suc_conv numeral_eq_Suc)
    with 5 show ?thesis by (simp add: readEdges_5 truncation_error_def)
  qed
qed

lemma readEdges_truncated:
  assumes "length bs = 2 + 6 * k + r" and "1 \<le> r" and "r \<le> 5"
    and "\<forall>i<k. in_range n (record_at bs i)" and "j \<le> k"
  shows "readEdges n (drop (record_offset j) bs) acc = Inl (truncation_error r)"
  using \<open>j \<le> k\<close>
proof (induction j arbitrary: acc rule: inc_induct)
  case base
  from assms(1) have "length (drop (record_offset k) bs) = r" by (simp add: record_offset_def)
  then show ?case using assms(2,3) by (rule readEdges_short)
next
  case (step j)
  from \<open>j < k\<close> assms(1) have "record_offset j + 6 \<le> length bs" by (simp add: record_offset_def)
  moreover from \<open>j < k\<close> assms(4) have "in_range n (record_at bs j)" by simp
  ultimately show ?case
    using step.IH by (simp add: readEdges_step)
qed

lemma readEdges_Inr_in_range:
  "readEdges n bs acc = Inr es \<Longrightarrow> \<exists>new. es = acc @ new \<and> (\<forall>e\<in>set new. in_range n e)"
proof (induction n bs acc rule: readEdges.induct)
  case (1 numVertices bs edges)
  show ?case
  proof (cases bs rule: binary_Read.cases)
    case 1
    with "1.prems" show ?thesis by (simp add: readEdges_Nil)
  next
    case (2 b0)
    with "1.prems" show ?thesis by (simp add: readEdges_1)
  next
    case (3 b0 b1 rest)
    show ?thesis
    proof (cases rest rule: binary_Read.cases)
      case 1
      with 3 "1.prems" show ?thesis by (simp add: readEdges_2)
    next
      case (2 c)
      with 3 "1.prems" show ?thesis by (simp add: readEdges_3)
    next
      case r2: (3 c d rest2)
      show ?thesis
      proof (cases rest2 rule: binary_Read.cases)
        case 1
        with 3 r2 "1.prems" show ?thesis by (simp add: readEdges_4)
      next
        case (2 e)
        with 3 r2 "1.prems" show ?thesis by (simp add: readEdges_5)
      next
        case r3: (3 e f rest3)
        let ?r = "\<lparr>from = le16 b0 b1, to = le16 c d, weight = le16 e f\<rparr>"
        from 3 r2 r3 "1.prems" have ok: "in_range numVertices ?r"
          and run: "readEdges numVertices rest3 (edges @ [?r]) = Inr es"
          by (auto simp: readEdges_record Let_def split: if_splits)
        from ok have "\<not> (le16 b0 b1 <s 0 \<or> numVertices \<le>s le16 b0 b1
            \<or> le16 c d <s 0 \<or> numVertices \<le>s le16 c d)"
          by (auto simp: in_range_def word_sless_alt word_sle_eq)
        with 3 r2 r3 run
        have "\<exists>new. es = (edges @ [?r]) @ new \<and> (\<forall>e\<in>set new. in_range numVertices e)"
          by (intro "1.IH" [of "(le16 b0 b1, rest)" "le16 b0 b1" rest "(le16 c d, rest2)"
                "le16 c d" rest2 "(le16 e f, rest3)" "le16 e f" rest3]) simp_all
        then obtain new where "es = (edges @ [?r]) @ new" "\<forall>e\<in>set new. in_range numVertices e"
          by blast
        with ok have "es = edges @ (?r # new) \<and> (\<forall>e\<in>set (?r # new). in_range numVertices e)"
          by simp
        then show ?thesis by blast
      qed
    qed
  qed
qed


lemma le16_encode: "le16 (ucast x) (ucast (drop_bit 8 x)) = x"
  unfolding le16_def by (rule bit_word_eqI) (auto simp: bit_simps)

lemma Edge_eta: "\<lparr>from = from e, to = to e, weight = weight e\<rparr> = (e :: Edge)"
  by (cases e) simp

lemma readEdges_encode_Edge:
  "readEdges n (encode_Edge e @ rest) acc =
     (if in_range n e then readEdges n rest (acc @ [e])
      else Inl (InvalidIndices (from e) (to e)))"
  by (simp add: encode_Edge_def encode_int16_def readEdges_record le16_encode Let_def Edge_eta)

lemma readEdges_encoded:
  "\<forall>e\<in>set es. in_range n e \<Longrightarrow> readEdges n (concat (map encode_Edge es)) acc = Inr (acc @ es)"
  by (induction es arbitrary: acc) (simp_all add: readEdges_Nil readEdges_encode_Edge)

section \<open>Lemmas about the emitter\<close>

lemma Fprintln_ok:
  "Fprintln f s = (f', True) \<Longrightarrow> content f' = content f @ s @ [CHR 0x0A]"
  by (auto simp: Fprintln_def file_Write_def split: option.splits if_splits)

lemma Fprintln_no_limit:
  "room f = None \<Longrightarrow> Fprintln f s = (f\<lparr>content := content f @ s @ [CHR 0x0A]\<rparr>, True)"
  by (simp add: Fprintln_def file_Write_def)

lemma writeEdges_loop_ok:
  "writeEdges_loop f edges = (f', None) \<Longrightarrow>
     content f' = content f @ unlines (map Sprintf_edge edges)"
proof (induction edges arbitrary: f)
  case Nil
  then show ?case by (simp add: unlines_def)
next
  case (Cons edge edges)
  obtain f1 ok where w: "Fprintln f (Sprintf_edge edge) = (f1, ok)"
    by (cases "Fprintln f (Sprintf_edge edge)")
  with Cons.prems have ok and rest: "writeEdges_loop f1 edges = (f', None)"
    by (cases ok; simp)+
  from w \<open>ok\<close> have "content f1 = content f @ Sprintf_edge edge @ [CHR 0x0A]"
    by (simp add: Fprintln_ok)
  with Cons.IH [OF rest] show ?case by (simp add: unlines_def)
qed

lemma writeEdges_loop_no_limit:
  "room f = None \<Longrightarrow>
     writeEdges_loop f edges = (f\<lparr>content := content f @ unlines (map Sprintf_edge edges)\<rparr>, None)"
  by (induction edges arbitrary: f) (simp_all add: Fprintln_no_limit unlines_def)

lemma writeEdges_ok:
  assumes "writeEdges fs filename edges = (None, fs')"
  shows "\<exists>f'. fs' filename = Some f'
           \<and> content f' = unlines (header # map Sprintf_edge edges)"
proof -
  from assms obtain f where c: "os_Create fs filename = Some f"
    by (cases "os_Create fs filename") (auto simp: writeEdges_def)
  then have [simp]: "content f = []" by (auto simp: os_Create_def)
  obtain f1 ok where h: "Fprintln f header = (f1, ok)"
    by (cases "Fprintln f header")
  with assms c have ok by (cases ok) (auto simp: writeEdges_def)
  obtain f2 err where l: "writeEdges_loop f1 edges = (f2, err)"
    by (cases "writeEdges_loop f1 edges")
  with assms c h \<open>ok\<close> have "err = None" "fs' = fs(filename \<mapsto> f2)"
    by (auto simp: writeEdges_def)
  with l h \<open>ok\<close> show ?thesis
    by (auto simp: unlines_def dest!: writeEdges_loop_ok Fprintln_ok)
qed

lemma writeEdges_no_limit:
  assumes "fs filename = Some f" and "room f = None"
  shows "writeEdges fs filename edges =
     (None, fs(filename \<mapsto> f\<lparr>content := unlines (header # map Sprintf_edge edges)\<rparr>))"
  using assms
  by (simp add: writeEdges_def os_Create_def Fprintln_no_limit writeEdges_loop_no_limit unlines_def)

lemma digits_nth:
  assumes "d < 10"
  shows "digits ! d \<in> set ''0123456789''" and "of_char (digits ! d) = 48 + d"
    and "digits ! d = CHR ''0'' \<longleftrightarrow> d = 0"
proof -
  from assms have "d \<in> {0, 1, 2, 3, 4, 5, 6, 7, 8, 9}" by auto
  then show "digits ! d \<in> set ''0123456789''" and "of_char (digits ! d) = 48 + d"
    and "digits ! d = CHR ''0'' \<longleftrightarrow> d = 0"
    by (auto simp: digits_def)
qed

lemma fmtInteger_loop_append: "fmtInteger_loop u buf = fmtInteger_loop u [] @ buf"
proof (induction u arbitrary: buf rule: less_induct)
  case (less u)
  show ?case
  proof (cases "10 \<le> u")
    case True
    then have "u div 10 < u" by simp
    from less [OF this, of "digits ! (u mod 10) # buf"] less [OF this, of "[digits ! (u mod 10)]"]
    show ?thesis using True by (simp add: fmtInteger_loop.simps [of u])
  next
    case False
    then show ?thesis by (simp add: fmtInteger_loop.simps [of u])
  qed
qed

lemma decimal_value_snoc:
  "decimal_value (ds @ [c]) = 10 * decimal_value ds + (of_char c - 48)"
  by (simp add: decimal_value_def)

lemma fmtInteger_loop_decimal:
  "fmtInteger_loop u [] \<noteq> []
   \<and> set (fmtInteger_loop u []) \<subseteq> set ''0123456789''
   \<and> (hd (fmtInteger_loop u []) = CHR ''0'' \<longrightarrow> u = 0)
   \<and> decimal_value (fmtInteger_loop u []) = u"
proof (induction u rule: less_induct)
  case (less u)
  show ?case
  proof (cases "10 \<le> u")
    case True
    let ?hi = "fmtInteger_loop (u div 10) []" and ?lo = "digits ! (u mod 10)"
    from True have "u div 10 < u" and pos: "u div 10 \<noteq> 0" by simp_all
    from less [OF this(1)] have hi: "?hi \<noteq> []" "set ?hi \<subseteq> set ''0123456789''"
      "hd ?hi = CHR ''0'' \<longrightarrow> u div 10 = 0" "decimal_value ?hi = u div 10"
      by blast+
    have eq: "fmtInteger_loop u [] = ?hi @ [?lo]"
      using True fmtInteger_loop_append [of "u div 10" "[?lo]"]
      by (simp add: fmtInteger_loop.simps [of u])
    have lo: "?lo \<in> set ''0123456789''" "of_char ?lo = 48 + u mod 10"
      by (rule digits_nth; simp)+
    from hi(1,3) pos have "hd (?hi @ [?lo]) \<noteq> CHR ''0''" by simp
    moreover from hi(2) lo(1) have "set (?hi @ [?lo]) \<subseteq> set ''0123456789''" by simp
    moreover from hi(4) lo(2) have "decimal_value (?hi @ [?lo]) = u"
      by (simp add: decimal_value_snoc)
    ultimately show ?thesis unfolding eq by simp
  next
    case False
    then have u: "u < 10" by simp
    from False have eq: "fmtInteger_loop u [] = [digits ! u]"
      by (simp add: fmtInteger_loop.simps [of u])
    from digits_nth [OF u] show ?thesis
      unfolding eq by (simp add: decimal_value_def)
  qed
qed

lemma fmtInteger_loop_zero: "fmtInteger_loop 0 [] = ''0''"
  by (simp add: fmtInteger_loop.simps digits_def)

lemma is_decimal_fmt_d:
  assumes "- (2 ^ 63) \<le> v" and "v < 2 ^ 63"
  shows "is_decimal (fmt_d v) v"
proof -
  define u where "u = nat \<bar>v\<bar>"
  let ?ds = "fmtInteger_loop u []"
  from assms have "v < 0 \<Longrightarrow> (- v) mod 2 ^ 64 = - v"
    by simp
  then have s: "fmt_d v = (if v < 0 then ''-'' else []) @ ?ds"
    by (simp add: fmt_d_def u_def)
  from fmtInteger_loop_decimal [of u]
  have ds: "?ds \<noteq> []" "set ?ds \<subseteq> set ''0123456789''" "hd ?ds = CHR ''0'' \<longrightarrow> u = 0"
    "decimal_value ?ds = u"
    by blast+
  from ds(3) have "hd ?ds = CHR ''0'' \<longrightarrow> ?ds = ''0''"
    using fmtInteger_loop_zero by auto
  moreover from ds(4) have "int (decimal_value ?ds) = \<bar>v\<bar>" by (simp add: u_def)
  ultimately show ?thesis
    unfolding is_decimal_def using s ds(1,2) by blast
qed

lemma sint_int16_bounds: "- (2 ^ 63) \<le> sint (x :: int16)" "sint (x :: int16) < 2 ^ 63"
proof -
  have "- (2 ^ 15) \<le> sint x" "sint x < 2 ^ 15"
    using sint_ge [of x] sint_lt [of x] by simp_all
  then show "- (2 ^ 63) \<le> sint x" "sint x < 2 ^ 63"
    by simp_all
qed

lemma is_decimal_int16: "is_decimal (fmt_d (sint (x :: int16))) (sint x)"
  by (rule is_decimal_fmt_d) (rule sint_int16_bounds)+

lemma newline_notin_fmt_d: "CHR 0x0A \<notin> set (fmt_d v)"
proof -
  from fmtInteger_loop_decimal have "set (fmtInteger_loop u []) \<subseteq> set ''0123456789''" for u
    by blast
  moreover have "CHR 0x0A \<notin> set ''0123456789''" by simp
  ultimately have "CHR 0x0A \<notin> set (fmtInteger_loop u [])" for u
    by blast
  then show ?thesis by (simp add: fmt_d_def)
qed

lemma newline_notin_Sprintf_edge: "CHR 0x0A \<notin> set (Sprintf_edge edge)"
  by (simp add: Sprintf_edge_def newline_notin_fmt_d)

lemma newline_notin_header: "CHR 0x0A \<notin> set header"
  by (simp add: header_def)

lemma readGraph_Inr_in_range:
  assumes "readGraph fs filename = Inr (n, es)"
  shows "\<forall>e\<in>set es. in_range n e"
proof -
  from assms obtain bs where "fs filename = Some bs"
    by (cases "fs filename") (auto simp: readGraph_def)
  moreover from assms this obtain rest where "binary_Read bs = Inr (n, rest)"
    and "readEdges n rest [] = Inr es"
    by (auto simp: readGraph_def split: sum.splits)
  ultimately show ?thesis
    by (auto dest: readEdges_Inr_in_range)
qed

lemma readGraph_first_invalid:
  assumes "record_offset i + 6 \<le> length bs"
    and "\<not> in_range (field16 bs 0) (record_at bs i)"
  shows "\<exists>j\<le>i. \<not> in_range (field16 bs 0) (record_at bs j)
           \<and> readGraph (fs(filename \<mapsto> bs)) filename =
               Inl (InvalidIndices (from (record_at bs j)) (to (record_at bs j)))"
proof -
  define m where "m = (LEAST j. \<not> in_range (field16 bs 0) (record_at bs j))"
  from assms(2) have bad: "\<not> in_range (field16 bs 0) (record_at bs m)"
    unfolding m_def by (rule LeastI)
  from assms(2) have "m \<le> i"
    unfolding m_def by (rule Least_le)
  have before: "\<forall>l<m. in_range (field16 bs 0) (record_at bs l)"
    unfolding m_def using not_less_Least by blast
  from \<open>m \<le> i\<close> assms(1) have complete: "record_offset m + 6 \<le> length bs"
    by (simp add: record_offset_def)
  then have "2 \<le> length bs"
    by (simp add: record_offset_def)
  moreover have "readEdges (field16 bs 0) (drop (record_offset 0) bs) [] =
      Inl (InvalidIndices (from (record_at bs m)) (to (record_at bs m)))"
    using complete bad before by (rule readEdges_first_invalid) simp
  ultimately have "readGraph (fs(filename \<mapsto> bs)) filename =
      Inl (InvalidIndices (from (record_at bs m)) (to (record_at bs m)))"
    by (simp add: readGraph_body record_offset_def)
  with bad \<open>m \<le> i\<close> show ?thesis by auto
qed

section \<open>The decoder: claims\<close>

text \<open>
  C1. Round trip: for every vertex count \<open>N \<ge> 0\<close> and every edge sequence \<open>E\<close> whose edges
  have \<open>from\<close> and \<open>to\<close> in \<open>[0, N)\<close>, \<^verbatim>\<open>readGraph\<close> applied to the little-endian encoding of
  \<open>N\<close> followed by the triples of \<open>E\<close> succeeds and returns exactly \<open>N\<close> and \<open>E\<close>, in the same
  order.
\<close>

theorem readGraph_encode_graph:
  assumes "0 \<le> sint N" and "\<forall>e\<in>set E. in_range N e"
  shows "readGraph (fs(filename \<mapsto> encode_graph N E)) filename = Inr (N, E)"
proof -
  have "binary_Read (encode_graph N E) = Inr (N, concat (map encode_Edge E))"
    by (simp add: encode_graph_def encode_int16_def le16_encode)
  moreover from assms(2) have "readEdges N (concat (map encode_Edge E)) [] = Inr ([] @ E)"
    by (rule readEdges_encoded)
  ultimately show ?thesis
    by (simp add: readGraph_def)
qed

theorem readGraph_encode_graph_witness:
  "0 \<le> sint (2 :: int16)
   \<and> in_range 2 \<lparr>from = 0, to = 1, weight = 10\<rparr> \<and> in_range 2 \<lparr>from = 1, to = 0, weight = - 5\<rparr>
   \<and> encode_graph 2 [\<lparr>from = 0, to = 1, weight = 10\<rparr>, \<lparr>from = 1, to = 0, weight = - 5\<rparr>]
       = [2, 0, 0, 0, 1, 0, 10, 0, 1, 0, 0, 0, 0xFB, 0xFF]
   \<and> readGraph [''g.bin'' \<mapsto> [2, 0, 0, 0, 1, 0, 10, 0, 1, 0, 0, 0, 0xFB, 0xFF]] ''g.bin''
       = Inr (2, [\<lparr>from = 0, to = 1, weight = 10\<rparr>, \<lparr>from = 1, to = 0, weight = - 5\<rparr>])"
proof -
  let ?E = "[\<lparr>from = 0, to = 1, weight = 10\<rparr>, \<lparr>from = 1, to = 0, weight = - 5 :: int16\<rparr>]"
  have N: "0 \<le> sint (2 :: int16)" by simp
  have E: "\<forall>e\<in>set ?E. in_range 2 e" by (simp add: in_range_def)
  have enc: "encode_graph 2 ?E = [2, 0, 0, 0, 1, 0, 10, 0, 1, 0, 0, 0, 0xFB, 0xFF]"
    by (simp add: encode_graph_def encode_Edge_def encode_int16_def)
  from readGraph_encode_graph [OF N E, of Map.empty "''g.bin''"] N E enc
  show ?thesis by simp
qed

text \<open>
  C2. Whenever some complete record of the input has \<open>from\<close> or \<open>to\<close> outside
  \<open>[0, numVertices)\<close>, \<^verbatim>\<open>readGraph\<close> fails: it returns no edge list, only the validation error
  carrying the \<open>from\<close> and \<open>to\<close> of an offending record (the first one of the input). The
  witness is the specification's example: \<open>numVertices = 3\<close> and the single record
  \<open>(3, 0, 5)\<close> are rejected with an error naming \<open>from = 3\<close>.
\<close>

theorem readGraph_rejects_out_of_range:
  assumes "record_offset i + 6 \<le> length bs"
    and "\<not> in_range (field16 bs 0) (record_at bs i)"
  shows "\<exists>j\<le>i. \<not> in_range (field16 bs 0) (record_at bs j)
           \<and> readGraph (fs(filename \<mapsto> bs)) filename =
               Inl (InvalidIndices (from (record_at bs j)) (to (record_at bs j)))
           \<and> validation_error (InvalidIndices (from (record_at bs j)) (to (record_at bs j)))"
  using readGraph_first_invalid [OF assms, of fs filename] by simp

theorem readGraph_rejects_out_of_range_witness:
  "record_offset 0 + 6 \<le> length [3, 0, 3, 0, 0, 0, 5, 0 :: byte]
   \<and> field16 [3, 0, 3, 0, 0, 0, 5, 0] 0 = 3
   \<and> record_at [3, 0, 3, 0, 0, 0, 5, 0] 0 = \<lparr>from = 3, to = 0, weight = 5\<rparr>
   \<and> \<not> in_range 3 \<lparr>from = 3, to = 0, weight = 5\<rparr>
   \<and> readGraph [''g.bin'' \<mapsto> [3, 0, 3, 0, 0, 0, 5, 0]] ''g.bin'' = Inl (InvalidIndices 3 0)"
proof -
  let ?bs = "[3, 0, 3, 0, 0, 0, 5, 0 :: byte]"
  have len: "record_offset 0 + 6 \<le> length ?bs"
    by (simp add: record_offset_def)
  have n: "field16 ?bs 0 = 3"
    by (simp add: field16_def le16_def)
  have r: "record_at ?bs 0 = \<lparr>from = 3, to = 0, weight = 5\<rparr>"
    by (simp add: record_at_def record_offset_def field16_def le16_def)
  have bad: "\<not> in_range 3 \<lparr>from = 3, to = 0, weight = 5\<rparr>"
    by (simp add: in_range_def)
  have "\<not> in_range (field16 ?bs 0) (record_at ?bs 0)"
    unfolding n r by (rule bad)
  from readGraph_rejects_out_of_range [OF len this, of Map.empty "''g.bin''"]
  have "readGraph [''g.bin'' \<mapsto> ?bs] ''g.bin'' = Inl (InvalidIndices 3 0)"
    by (simp add: r)
  with len n r bad show ?thesis by blast
qed

text \<open>
  C4, as the code has it. The claim that every successful decode returns a vertex count
  \<open>\<ge> 0\<close> fails: \<^verbatim>\<open>readGraph\<close> never looks at the sign of \<^verbatim>\<open>numVertices\<close>, so the two bytes
  \<open>FF FF\<close> decode to the vertex count \<open>-1\<close> and no edge.
\<close>

theorem readGraph_negative_numVertices:
  "readGraph [''g.bin'' \<mapsto> [0xFF, 0xFF]] ''g.bin'' = Inr (- 1, [])
   \<and> sint (- 1 :: int16) < 0"
  by (simp add: readGraph_def le16_def readEdges_Nil)

text \<open>
  C4, amended. Every successful decode that returns at least one edge returns a vertex
  count \<open>\<ge> 0\<close>: the range check of each record compares the indices with it.
\<close>

theorem readGraph_numVertices_nonneg:
  assumes "readGraph fs filename = Inr (n, es)" and "es \<noteq> []"
  shows "0 \<le> sint n"
proof -
  from assms(2) obtain e where "e \<in> set es"
    by (cases es) auto
  with readGraph_Inr_in_range [OF assms(1)] have "in_range n e"
    by blast
  then show ?thesis
    by (simp add: in_range_def)
qed

theorem readGraph_numVertices_nonneg_witness:
  "readGraph [''g.bin'' \<mapsto> [1, 0, 0, 0, 0, 0, 7, 0]] ''g.bin''
     = Inr (1, [\<lparr>from = 0, to = 0, weight = 7\<rparr>])
   \<and> [\<lparr>from = 0, to = 0, weight = 7 :: int16\<rparr>] \<noteq> []
   \<and> 0 \<le> sint (1 :: int16)"
proof -
  have run: "readGraph [''g.bin'' \<mapsto> [1, 0, 0, 0, 0, 0, 7, 0]] ''g.bin''
      = Inr (1, [\<lparr>from = 0, to = 0, weight = 7\<rparr>])"
    by (simp add: readGraph_def le16_def readEdges_record readEdges_Nil in_range_def)
  have ne: "[\<lparr>from = 0, to = 0, weight = 7 :: int16\<rparr>] \<noteq> []"
    by simp
  from readGraph_numVertices_nonneg [OF run ne] run ne show ?thesis
    by blast
qed

text \<open>
  C5. An input of exactly \<open>2 + 6 * k\<close> bytes whose \<open>k\<close> records all have \<open>from\<close> and \<open>to\<close> in
  \<open>[0, numVertices)\<close> decodes with no error to exactly \<open>k\<close> edges, the records in input
  order. The loop ends normally when no byte is left where a record would start.
\<close>

theorem readGraph_clean_eof:
  assumes "length bs = 2 + 6 * k"
    and "\<forall>i<k. in_range (field16 bs 0) (record_at bs i)"
  shows "readGraph (fs(filename \<mapsto> bs)) filename
           = Inr (field16 bs 0, map (record_at bs) [0..<k])
         \<and> length (map (record_at bs) [0..<k]) = k
         \<and> readEdges n [] edges = Inr edges"
proof -
  have "readEdges (field16 bs 0) (drop (record_offset 0) bs) []
      = Inr ([] @ map (record_at bs) [0..<k])"
    using assms by (rule readEdges_all_in_range) simp
  moreover from assms(1) have "2 \<le> length bs"
    by simp
  ultimately show ?thesis
    by (simp add: readGraph_body record_offset_def readEdges_Nil)
qed

theorem readGraph_clean_eof_witness:
  "length [2, 0, 0, 0, 1, 0, 10, 0, 1, 0, 0, 0, 0xFB, 0xFF :: byte] = 2 + 6 * 2
   \<and> readGraph [''g.bin'' \<mapsto> [2, 0, 0, 0, 1, 0, 10, 0, 1, 0, 0, 0, 0xFB, 0xFF]] ''g.bin''
       = Inr (2, [\<lparr>from = 0, to = 1, weight = 10\<rparr>, \<lparr>from = 1, to = 0, weight = - 5\<rparr>])
   \<and> readGraph [''g.bin'' \<mapsto> [0x07, 0x00]] ''g.bin'' = Inr (7, [])"
proof -
  let ?bs = "[2, 0, 0, 0, 1, 0, 10, 0, 1, 0, 0, 0, 0xFB, 0xFF :: byte]"
  have len: "length ?bs = 2 + 6 * 2"
    by simp
  have n: "field16 ?bs 0 = 2"
    by (simp add: field16_def le16_def)
  have r0: "record_at ?bs 0 = \<lparr>from = 0, to = 1, weight = 10\<rparr>"
    by (simp add: record_at_def record_offset_def field16_def le16_def)
  have r1: "record_at ?bs (Suc 0) = \<lparr>from = 1, to = 0, weight = - 5\<rparr>"
    by (simp add: record_at_def record_offset_def field16_def le16_def)
  have ok: "\<forall>i<2. in_range (field16 ?bs 0) (record_at ?bs i)"
    by (simp add: n r0 r1 in_range_def less_Suc_eq numeral_2_eq_2)
  have upt: "[0..<2] = [0, Suc 0]"
    by (simp add: upt_rec numeral_2_eq_2)
  have len0: "length [0x07, 0x00 :: byte] = 2 + 6 * 0"
    by simp
  have ok0: "\<forall>i<0. in_range (field16 [0x07, 0x00] 0) (record_at [0x07, 0x00] i)"
    by simp
  have n0: "field16 [0x07, 0x00] 0 = 7"
    by (simp add: field16_def le16_def)
  from readGraph_clean_eof [OF len ok, of Map.empty "''g.bin''"]
    readGraph_clean_eof [OF len0 ok0, of Map.empty "''g.bin''"]
  show ?thesis
    by (simp add: n r0 r1 upt n0)
qed

text \<open>
  C6, as the code has it. The claim that every input of length \<open>2 + 6 * k + r\<close> with
  \<open>1 \<le> r \<le> 5\<close> fails with a format error does not hold when a complete record before the
  truncated one has an index out of range: the records are validated as they are read, so
  the validation error comes first. Here \<open>numVertices = 0\<close>, one record \<open>(0, 0, 0)\<close> and
  one more byte: nine bytes, \<open>k = 1\<close> and \<open>r = 1\<close>.
\<close>

theorem readGraph_truncated_after_invalid:
  "length [0, 0, 0, 0, 0, 0, 0, 0, 0 :: byte] = 2 + 6 * 1 + 1
   \<and> readGraph [''g.bin'' \<mapsto> [0, 0, 0, 0, 0, 0, 0, 0, 0]] ''g.bin'' = Inl (InvalidIndices 0 0)
   \<and> \<not> format_error (InvalidIndices 0 0)"
  by (simp add: readGraph_def le16_def readEdges_record in_range_def)

text \<open>
  C6, amended. Every input of length \<open>2 + 6 * k + r\<close> with \<open>1 \<le> r \<le> 5\<close> fails and returns no
  edge. When its \<open>k\<close> complete records all have \<open>from\<close> and \<open>to\<close> in \<open>[0, numVertices)\<close>, the
  error is the format error of the read that the truncated record stops; otherwise it is
  the validation error of an out-of-range record among the \<open>k\<close>.
\<close>

theorem readGraph_truncated_record:
  assumes "length bs = 2 + 6 * k + r" and "1 \<le> r" and "r \<le> 5"
  shows "((\<forall>i<k. in_range (field16 bs 0) (record_at bs i)) \<longrightarrow>
            readGraph (fs(filename \<mapsto> bs)) filename = Inl (truncation_error r)
            \<and> format_error (truncation_error r))
         \<and> (\<not> (\<forall>i<k. in_range (field16 bs 0) (record_at bs i)) \<longrightarrow>
              (\<exists>j<k. \<not> in_range (field16 bs 0) (record_at bs j)
                 \<and> readGraph (fs(filename \<mapsto> bs)) filename =
                     Inl (InvalidIndices (from (record_at bs j)) (to (record_at bs j)))))"
proof (intro conjI impI)
  from assms(1) have two: "2 \<le> length bs"
    by simp
  assume "\<forall>i<k. in_range (field16 bs 0) (record_at bs i)"
  with assms have "readEdges (field16 bs 0) (drop (record_offset 0) bs) [] =
      Inl (truncation_error r)"
    by (rule readEdges_truncated) simp
  with two show "readGraph (fs(filename \<mapsto> bs)) filename = Inl (truncation_error r)"
    by (simp add: readGraph_body record_offset_def)
  show "format_error (truncation_error r)"
    by (simp add: truncation_error_def)
next
  assume "\<not> (\<forall>i<k. in_range (field16 bs 0) (record_at bs i))"
  then obtain i where "i < k" and bad: "\<not> in_range (field16 bs 0) (record_at bs i)"
    by blast
  from \<open>i < k\<close> assms(1) have "record_offset i + 6 \<le> length bs"
    by (simp add: record_offset_def)
  from readGraph_first_invalid [OF this bad, of fs filename] \<open>i < k\<close>
  show "\<exists>j<k. \<not> in_range (field16 bs 0) (record_at bs j)
      \<and> readGraph (fs(filename \<mapsto> bs)) filename =
          Inl (InvalidIndices (from (record_at bs j)) (to (record_at bs j)))"
    by (meson le_less_trans)
qed

theorem readGraph_truncated_record_witness:
  "length [1, 0, 0, 0, 0, 0, 7, 0, 0, 0, 0 :: byte] = 2 + 6 * 1 + 3
   \<and> (1 :: nat) \<le> 3 \<and> (3 :: nat) \<le> 5
   \<and> in_range 1 \<lparr>from = 0, to = 0, weight = 7\<rparr>
   \<and> readGraph [''g.bin'' \<mapsto> [1, 0, 0, 0, 0, 0, 7, 0, 0, 0, 0]] ''g.bin''
       = Inl (ToError ErrUnexpectedEOF)
   \<and> length [0, 0, 0, 0, 0, 0, 7, 0, 9 :: byte] = 2 + 6 * 1 + 1
   \<and> \<not> in_range 0 \<lparr>from = 0, to = 0, weight = 7\<rparr>
   \<and> readGraph [''g.bin'' \<mapsto> [0, 0, 0, 0, 0, 0, 7, 0, 9]] ''g.bin''
       = Inl (InvalidIndices 0 0)"
proof -
  let ?bs = "[1, 0, 0, 0, 0, 0, 7, 0, 0, 0, 0 :: byte]"
  let ?cs = "[0, 0, 0, 0, 0, 0, 7, 0, 9 :: byte]"
  have len: "length ?bs = 2 + 6 * 1 + 3"
    by simp
  have n: "field16 ?bs 0 = 1"
    by (simp add: field16_def le16_def)
  have r0: "record_at ?bs 0 = \<lparr>from = 0, to = 0, weight = 7\<rparr>"
    by (simp add: record_at_def record_offset_def field16_def le16_def)
  have ok: "in_range 1 \<lparr>from = 0, to = 0, weight = 7\<rparr>"
    by (simp add: in_range_def)
  then have all: "\<forall>i<1. in_range (field16 ?bs 0) (record_at ?bs i)"
    by (simp add: n r0)
  from readGraph_truncated_record [OF len, of Map.empty "''g.bin''"] all
  have "readGraph [''g.bin'' \<mapsto> ?bs] ''g.bin'' = Inl (truncation_error 3)"
    by simp
  then have run: "readGraph [''g.bin'' \<mapsto> ?bs] ''g.bin'' = Inl (ToError ErrUnexpectedEOF)"
    by (simp add: truncation_error_def)
  have len': "length ?cs = 2 + 6 * 1 + 1"
    by simp
  have n': "field16 ?cs 0 = 0"
    by (simp add: field16_def le16_def)
  have r0': "record_at ?cs 0 = \<lparr>from = 0, to = 0, weight = 7\<rparr>"
    by (simp add: record_at_def record_offset_def field16_def le16_def)
  have bad: "\<not> in_range 0 \<lparr>from = 0, to = 0, weight = 7\<rparr>"
    by (simp add: in_range_def)
  then have some: "\<not> (\<forall>i<1. in_range (field16 ?cs 0) (record_at ?cs i))"
    by (simp add: n' r0')
  from readGraph_truncated_record [OF len', of Map.empty "''g.bin''"] some
  have "\<exists>j<1. readGraph [''g.bin'' \<mapsto> ?cs] ''g.bin'' =
      Inl (InvalidIndices (from (record_at ?cs j)) (to (record_at ?cs j)))"
    by simp
  then have run': "readGraph [''g.bin'' \<mapsto> ?cs] ''g.bin'' = Inl (InvalidIndices 0 0)"
    by (simp add: r0')
  from len ok run len' bad run' show ?thesis
    by simp
qed

text \<open>
  C7. Every input of fewer than two bytes fails with the error of the read of
  \<^verbatim>\<open>numVertices\<close>, a format error: it wraps \<^verbatim>\<open>io.EOF\<close> for the empty file and
  \<^verbatim>\<open>io.ErrUnexpectedEOF\<close> for a file of one byte. No vertex count and no edge is returned.
\<close>

theorem readGraph_truncated_header:
  "length bs < 2 \<Longrightarrow>
     readGraph (fs(filename \<mapsto> bs)) filename =
       Inl (NumVerticesError (if bs = [] then EOF else ErrUnexpectedEOF))
     \<and> format_error (NumVerticesError (if bs = [] then EOF else ErrUnexpectedEOF))"
  by (cases bs rule: binary_Read.cases) (simp_all add: readGraph_def)

theorem readGraph_truncated_header_witness:
  "length [0x03 :: byte] < 2
   \<and> readGraph [''g.bin'' \<mapsto> [0x03]] ''g.bin'' = Inl (NumVerticesError ErrUnexpectedEOF)
   \<and> readGraph [''g.bin'' \<mapsto> []] ''g.bin'' = Inl (NumVerticesError EOF)"
  using readGraph_truncated_header [of "[0x03]" Map.empty "''g.bin''"]
    readGraph_truncated_header [of "[]" Map.empty "''g.bin''"]
  by simp

text \<open>
  C9. An input whose vertex count is \<open>\<le> 0\<close> and that holds at least one complete record
  fails with the validation error of its first record, since no index lies in
  \<open>[0, numVertices)\<close> then. Equivalently, a successful decode that returns at least one edge
  has \<open>numVertices \<ge> 1\<close>.
\<close>

theorem readGraph_nonpositive_numVertices:
  "(8 \<le> length bs \<and> sint (field16 bs 0) \<le> 0 \<longrightarrow>
      readGraph (fs(filename \<mapsto> bs)) filename =
        Inl (InvalidIndices (from (record_at bs 0)) (to (record_at bs 0)))
      \<and> validation_error (InvalidIndices (from (record_at bs 0)) (to (record_at bs 0))))
   \<and> (readGraph fs' filename' = Inr (n, es) \<and> es \<noteq> [] \<longrightarrow> 1 \<le> sint n)"
proof (intro conjI impI; (elim conjE)?)
  assume len: "8 \<le> length bs" and n: "sint (field16 bs 0) \<le> 0"
  from n have bad: "\<not> in_range (field16 bs 0) (record_at bs 0)"
    by (auto simp: in_range_def)
  from len have complete: "record_offset 0 + 6 \<le> length bs"
    by (simp add: record_offset_def)
  have "readEdges (field16 bs 0) (drop (record_offset 0) bs) [] =
      Inl (InvalidIndices (from (record_at bs 0)) (to (record_at bs 0)))"
    using complete bad by (rule readEdges_first_invalid) simp_all
  with len show "readGraph (fs(filename \<mapsto> bs)) filename =
      Inl (InvalidIndices (from (record_at bs 0)) (to (record_at bs 0)))"
    by (simp add: readGraph_body record_offset_def)
  show "validation_error (InvalidIndices (from (record_at bs 0)) (to (record_at bs 0)))"
    by simp
next
  assume run: "readGraph fs' filename' = Inr (n, es)" and "es \<noteq> []"
  then obtain e where "e \<in> set es"
    by (cases es) auto
  with readGraph_Inr_in_range [OF run] have "in_range n e"
    by blast
  then show "1 \<le> sint n"
    by (simp add: in_range_def)
qed

theorem readGraph_nonpositive_numVertices_witness:
  "8 \<le> length [0, 0, 0, 0, 0, 0, 7, 0 :: byte]
   \<and> sint (field16 [0, 0, 0, 0, 0, 0, 7, 0] 0) \<le> 0
   \<and> readGraph [''g.bin'' \<mapsto> [0, 0, 0, 0, 0, 0, 7, 0]] ''g.bin'' = Inl (InvalidIndices 0 0)
   \<and> readGraph [''h.bin'' \<mapsto> [1, 0, 0, 0, 0, 0, 7, 0]] ''h.bin''
       = Inr (1, [\<lparr>from = 0, to = 0, weight = 7\<rparr>])
   \<and> 1 \<le> sint (1 :: int16)"
proof -
  let ?bs = "[0, 0, 0, 0, 0, 0, 7, 0 :: byte]"
  have len: "8 \<le> length ?bs"
    by simp
  have n: "sint (field16 ?bs 0) \<le> 0"
    by (simp add: field16_def le16_def)
  have r0: "record_at ?bs 0 = \<lparr>from = 0, to = 0, weight = 7\<rparr>"
    by (simp add: record_at_def record_offset_def field16_def le16_def)
  have run: "readGraph [''h.bin'' \<mapsto> [1, 0, 0, 0, 0, 0, 7, 0]] ''h.bin''
      = Inr (1, [\<lparr>from = 0, to = 0, weight = 7\<rparr>])"
    by (simp add: readGraph_def le16_def readEdges_record readEdges_Nil in_range_def)
  from readGraph_nonpositive_numVertices
    [of ?bs Map.empty "''g.bin''" "[''h.bin'' \<mapsto> [1, 0, 0, 0, 0, 0, 7, 0]]" "''h.bin''" 1
      "[\<lparr>from = 0, to = 0, weight = 7\<rparr>]"]
    len n run
  have "readGraph [''g.bin'' \<mapsto> ?bs] ''g.bin'' = Inl (InvalidIndices 0 0)"
    and "1 \<le> sint (1 :: int16)"
    by (simp_all add: r0)
  with len n run show ?thesis
    by blast
qed

section \<open>The emitter: claims\<close>

text \<open>
  C3. For every edge sequence, \<^verbatim>\<open>writeEdges\<close> writes the header line first and then one line
  for each edge, in input order. A line is \<open>(from, to, weight)\<close>: the three integers in
  base-10 signed decimal, separated by a comma and a space, in parentheses; the vertex
  indices are the decoded values themselves, with nothing added. The run succeeds when no
  write can fail, and each run that succeeds leaves that text in the file. No line holds a
  newline of its own. The witness is the specification's example: the edges
  \<open>(0, 1, 10)\<close> and \<open>(1, 0, -5)\<close> give the body lines \<^verbatim>\<open>(0, 1, 10)\<close> and \<^verbatim>\<open>(1, 0, -5)\<close>.
\<close>

theorem writeEdges_format:
  "(room f = None \<longrightarrow>
      writeEdges (fs(filename \<mapsto> f)) filename edges =
        (None, fs(filename \<mapsto> f\<lparr>content := unlines (header # map Sprintf_edge edges)\<rparr>)))
   \<and> (writeEdges fs' filename edges = (None, fs'') \<longrightarrow>
        (\<exists>f'. fs'' filename = Some f'
           \<and> content f' = unlines (header # map Sprintf_edge edges)))
   \<and> (\<exists>x y z. Sprintf_edge e = ''('' @ x @ '', '' @ y @ '', '' @ z @ '')''
         \<and> is_decimal x (sint (from e)) \<and> is_decimal y (sint (to e))
         \<and> is_decimal z (sint (weight e)))
   \<and> CHR 0x0A \<notin> set header \<and> CHR 0x0A \<notin> set (Sprintf_edge e)"
proof (intro conjI impI)
  assume "room f = None"
  then show "writeEdges (fs(filename \<mapsto> f)) filename edges =
      (None, fs(filename \<mapsto> f\<lparr>content := unlines (header # map Sprintf_edge edges)\<rparr>))"
    using writeEdges_no_limit [of "fs(filename \<mapsto> f)" filename f edges] by simp
next
  assume "writeEdges fs' filename edges = (None, fs'')"
  then show "\<exists>f'. fs'' filename = Some f'
      \<and> content f' = unlines (header # map Sprintf_edge edges)"
    by (rule writeEdges_ok)
next
  have "Sprintf_edge e = ''('' @ fmt_d (sint (from e)) @ '', '' @ fmt_d (sint (to e)) @ '', ''
      @ fmt_d (sint (weight e)) @ '')''"
    by (simp add: Sprintf_edge_def)
  then show "\<exists>x y z. Sprintf_edge e = ''('' @ x @ '', '' @ y @ '', '' @ z @ '')''
      \<and> is_decimal x (sint (from e)) \<and> is_decimal y (sint (to e))
      \<and> is_decimal z (sint (weight e))"
    using is_decimal_int16 by blast
next
  show "CHR 0x0A \<notin> set header"
    by (rule newline_notin_header)
  show "CHR 0x0A \<notin> set (Sprintf_edge e)"
    by (rule newline_notin_Sprintf_edge)
qed

theorem writeEdges_format_witness:
  "room \<lparr>content = ''stale'', room = None\<rparr> = None
   \<and> writeEdges [''output.txt'' \<mapsto> \<lparr>content = ''stale'', room = None\<rparr>] ''output.txt''
        [\<lparr>from = 0, to = 1, weight = 10\<rparr>, \<lparr>from = 1, to = 0, weight = - 5\<rparr>]
      = (None, [''output.txt'' \<mapsto>
           \<lparr>content = header @ [CHR 0x0A] @ ''(0, 1, 10)'' @ [CHR 0x0A] @ ''(1, 0, -5)''
              @ [CHR 0x0A],
            room = None\<rparr>])
   \<and> writeEdges [''output.txt'' \<mapsto> \<lparr>content = [], room = Some 60\<rparr>] ''output.txt''
        [\<lparr>from = 0, to = 1, weight = 10\<rparr>, \<lparr>from = 1, to = 0, weight = - 5\<rparr>]
      = (None, [''output.txt'' \<mapsto>
           \<lparr>content = unlines [header, ''(0, 1, 10)'', ''(1, 0, -5)''], room = Some 2\<rparr>])"
proof -
  let ?f = "\<lparr>content = ''stale'', room = None\<rparr>"
  let ?g = "\<lparr>content = [], room = Some 60\<rparr>"
  let ?E = "[\<lparr>from = 0, to = 1, weight = 10\<rparr>, \<lparr>from = 1, to = 0, weight = - 5 :: int16\<rparr>]"
  let ?fs' = "[''output.txt'' \<mapsto> ?g]"
  have r: "room ?f = None"
    by simp
  have lines: "map Sprintf_edge ?E = [''(0, 1, 10)'', ''(1, 0, -5)'']"
    by (simp add: Sprintf_edge_def fmt_d_def fmtInteger_loop.simps digits_def)
  then have l0: "Sprintf_edge \<lparr>from = 0, to = 1, weight = 10\<rparr> = ''(0, 1, 10)''"
    and l1: "Sprintf_edge \<lparr>from = 1, to = 0, weight = - 5\<rparr> = ''(1, 0, -5)''"
    by simp_all
  obtain err fs'' where run: "writeEdges ?fs' ''output.txt'' ?E = (err, fs'')"
    by (cases "writeEdges ?fs' ''output.txt'' ?E")
  then have err: "err = None"
    and fs'': "fs'' = [''output.txt'' \<mapsto>
      \<lparr>content = header @ [CHR 0x0A] @ ''(0, 1, 10)'' @ [CHR 0x0A] @ ''(1, 0, -5)''
         @ [CHR 0x0A], room = Some 2\<rparr>]"
    by (simp_all add: writeEdges_def os_Create_def Fprintln_def file_Write_def header_def l0 l1)
  from writeEdges_format [of ?f Map.empty "''output.txt''" ?E ?fs' fs''] r run err
  have a: "writeEdges [''output.txt'' \<mapsto> ?f] ''output.txt'' ?E =
      (None, [''output.txt'' \<mapsto> ?f\<lparr>content := unlines (header # map Sprintf_edge ?E)\<rparr>])"
    and b: "\<exists>f'. fs'' ''output.txt'' = Some f'
      \<and> content f' = unlines (header # map Sprintf_edge ?E)"
    by blast+
  from b fs'' have "fs'' = [''output.txt'' \<mapsto>
      \<lparr>content = unlines (header # map Sprintf_edge ?E), room = Some 2\<rparr>]"
    by auto
  with a run err show ?thesis
    unfolding lines by (simp add: unlines_def)
qed

text \<open>
  C8. An edge of weight \<open>-32768\<close>, the least \<^verbatim>\<open>int16\<close>, passes through \<^verbatim>\<open>readGraph\<close> and
  \<^verbatim>\<open>writeEdges\<close> unchanged: the bytes \<open>00 80\<close> decode to the weight \<open>-32768\<close>, and the edge's
  line ends with the decimal text \<^verbatim>\<open>-32768\<close>, which is the decimal of \<open>-32768\<close>.
\<close>

theorem min_weight_unchanged:
  assumes "in_range n \<lparr>from = f, to = t, weight = - 32768\<rparr>"
  shows "readGraph (fs(filename \<mapsto> encode_int16 n @ encode_int16 f @ encode_int16 t @ [0x00, 0x80]))
             filename
           = Inr (n, [\<lparr>from = f, to = t, weight = - 32768\<rparr>])
         \<and> sint (- 32768 :: int16) = - 32768
         \<and> Sprintf_edge \<lparr>from = f, to = t, weight = - 32768\<rparr>
             = ''('' @ fmt_d (sint f) @ '', '' @ fmt_d (sint t) @ '', -32768)''
         \<and> is_decimal ''-32768'' (- 32768)
         \<and> (room out = None \<longrightarrow>
               writeEdges (ofs(outname \<mapsto> out)) outname [\<lparr>from = f, to = t, weight = - 32768\<rparr>]
                 = (None, ofs(outname \<mapsto> out\<lparr>content :=
                      unlines [header,
                        ''('' @ fmt_d (sint f) @ '', '' @ fmt_d (sint t) @ '', -32768)'']\<rparr>)))"
proof -
  let ?e = "\<lparr>from = f, to = t, weight = - 32768 :: int16\<rparr>"
  have "encode_int16 f @ encode_int16 t @ [0x00, 0x80] = encode_Edge ?e"
    by (simp add: encode_Edge_def encode_int16_def)
  then have "encode_int16 n @ encode_int16 f @ encode_int16 t @ [0x00, 0x80]
      = encode_graph n [?e]"
    by (simp add: encode_graph_def)
  moreover have "readEdges n (concat (map encode_Edge [?e])) [] = Inr ([] @ [?e])"
    using assms by (intro readEdges_encoded) simp
  then have "readGraph (fs(filename \<mapsto> encode_graph n [?e])) filename = Inr (n, [?e])"
    by (simp add: readGraph_def encode_graph_def encode_int16_def le16_encode)
  ultimately have dec: "readGraph
      (fs(filename \<mapsto> encode_int16 n @ encode_int16 f @ encode_int16 t @ [0x00, 0x80])) filename
      = Inr (n, [?e])"
    by simp
  have s: "sint (- 32768 :: int16) = - 32768"
    by simp
  have d: "fmt_d (- 32768) = ''-32768''"
    by (simp add: fmt_d_def fmtInteger_loop.simps digits_def)
  have line: "Sprintf_edge ?e = ''('' @ fmt_d (sint f) @ '', '' @ fmt_d (sint t) @ '', -32768)''"
    by (simp add: Sprintf_edge_def d)
  have "is_decimal (fmt_d (- 32768)) (- 32768)"
    by (rule is_decimal_fmt_d) simp_all
  then have dec_text: "is_decimal ''-32768'' (- 32768)"
    by (simp only: d)
  have emit: "writeEdges (ofs(outname \<mapsto> out)) outname [?e]
      = (None, ofs(outname \<mapsto> out\<lparr>content :=
           unlines [header, ''('' @ fmt_d (sint f) @ '', '' @ fmt_d (sint t) @ '', -32768)'']\<rparr>))"
    if "room out = None"
    using writeEdges_no_limit [of "ofs(outname \<mapsto> out)" outname out "[?e]"] that
    by (simp add: line)
  from dec s line dec_text emit show ?thesis
    by blast
qed

theorem min_weight_unchanged_witness:
  "in_range 2 \<lparr>from = 0, to = 1, weight = - 32768\<rparr>
   \<and> readGraph [''g.bin'' \<mapsto> [0x02, 0x00, 0x00, 0x00, 0x01, 0x00, 0x00, 0x80]] ''g.bin''
       = Inr (2, [\<lparr>from = 0, to = 1, weight = - 32768\<rparr>])
   \<and> Sprintf_edge \<lparr>from = 0, to = 1, weight = - 32768\<rparr> = ''(0, 1, -32768)''
   \<and> room \<lparr>content = [], room = None\<rparr> = None
   \<and> writeEdges [''output.txt'' \<mapsto> \<lparr>content = [], room = None\<rparr>] ''output.txt''
        [\<lparr>from = 0, to = 1, weight = - 32768\<rparr>]
      = (None, [''output.txt'' \<mapsto>
           \<lparr>content = unlines [header, ''(0, 1, -32768)''], room = None\<rparr>])"
proof -
  let ?g = "\<lparr>content = [], room = None\<rparr>"
  have ok: "in_range 2 \<lparr>from = 0, to = 1, weight = - 32768\<rparr>"
    by (simp add: in_range_def)
  have d: "fmt_d 0 = ''0''" "fmt_d 1 = ''1''"
    by (simp_all add: fmt_d_def fmtInteger_loop.simps digits_def)
  have r: "room ?g = None"
    by simp
  from min_weight_unchanged [OF ok, of Map.empty "''g.bin''" ?g Map.empty "''output.txt''"] ok r
  show ?thesis
    by (simp add: encode_int16_def d)
qed

text \<open>
  C10. For the empty edge sequence \<^verbatim>\<open>writeEdges\<close> succeeds when no write can fail, and each
  run that succeeds leaves exactly one line in the file, the header line: the header and
  one newline, the only newline of the output.
\<close>

theorem writeEdges_no_edges:
  "(room f = None \<longrightarrow>
      writeEdges (fs(filename \<mapsto> f)) filename [] =
        (None, fs(filename \<mapsto> f\<lparr>content := header @ [CHR 0x0A]\<rparr>)))
   \<and> (writeEdges fs' filename [] = (None, fs'') \<longrightarrow>
        (\<exists>f'. fs'' filename = Some f' \<and> content f' = header @ [CHR 0x0A]))
   \<and> unlines [header] = header @ [CHR 0x0A]
   \<and> count_list (header @ [CHR 0x0A]) (CHR 0x0A) = 1"
proof (intro conjI impI)
  assume "room f = None"
  then show "writeEdges (fs(filename \<mapsto> f)) filename [] =
      (None, fs(filename \<mapsto> f\<lparr>content := header @ [CHR 0x0A]\<rparr>))"
    using writeEdges_no_limit [of "fs(filename \<mapsto> f)" filename f "[]"]
    by (simp add: unlines_def)
next
  assume "writeEdges fs' filename [] = (None, fs'')"
  from writeEdges_ok [OF this]
  show "\<exists>f'. fs'' filename = Some f' \<and> content f' = header @ [CHR 0x0A]"
    by (simp add: unlines_def)
next
  show "unlines [header] = header @ [CHR 0x0A]"
    by (simp add: unlines_def)
  show "count_list (header @ [CHR 0x0A]) (CHR 0x0A) = 1"
    by (simp add: header_def)
qed

theorem writeEdges_no_edges_witness:
  "room \<lparr>content = ''stale'', room = None\<rparr> = None
   \<and> writeEdges [''output.txt'' \<mapsto> \<lparr>content = ''stale'', room = None\<rparr>] ''output.txt'' []
      = (None, [''output.txt'' \<mapsto> \<lparr>content = header @ [CHR 0x0A], room = None\<rparr>])
   \<and> writeEdges [''output.txt'' \<mapsto> \<lparr>content = [], room = Some 40\<rparr>] ''output.txt'' []
      = (None, [''output.txt'' \<mapsto> \<lparr>content = header @ [CHR 0x0A], room = Some 4\<rparr>])"
proof -
  let ?f = "\<lparr>content = ''stale'', room = None\<rparr>"
  let ?fs' = "[''output.txt'' \<mapsto> \<lparr>content = [], room = Some 40\<rparr>]"
  have r: "room ?f = None"
    by simp
  obtain err fs'' where run: "writeEdges ?fs' ''output.txt'' [] = (err, fs'')"
    by (cases "writeEdges ?fs' ''output.txt'' []")
  then have err: "err = None"
    and fs'': "fs'' = [''output.txt'' \<mapsto> \<lparr>content = header @ [CHR 0x0A], room = Some 4\<rparr>]"
    by (simp_all add: writeEdges_def os_Create_def Fprintln_def file_Write_def header_def)
  from writeEdges_no_edges [of ?f Map.empty "''output.txt''" ?fs' fs''] r run err
  have a: "writeEdges [''output.txt'' \<mapsto> ?f] ''output.txt'' [] =
      (None, [''output.txt'' \<mapsto> ?f\<lparr>content := header @ [CHR 0x0A]\<rparr>])"
    and b: "\<exists>f'. fs'' ''output.txt'' = Some f' \<and> content f' = header @ [CHR 0x0A]"
    by blast+
  from a run err fs'' show ?thesis
    by simp
qed

end
